theory Spec2Isabelle
  imports Complex_Main "HOL-Library.Word"
begin

section \<open>Go values used by the exporter\<close>

text \<open>
  The program is \<^verbatim>\<open>main.go\<close> of the map exporter. Bytes are \<open>uint8\<close>; a Go slice is a
  list; \<open>len\<close> and loop counters are natural numbers (they never go negative in this
  program). A run-time panic of Go (an index out of range, a failed type assertion, a
  nil pointer dereference) is a value of \<open>go_panic\<close>, and a function that can panic
  returns \<open>go_panic + 'a\<close> with \<open>Inl\<close> for the panic.
\<close>

type_synonym uint8 = "8 word"

datatype go_type = T_nil | T_map | T_bytes | T_other string

datatype go_panic =
    IndexOutOfRange nat nat
  | InterfaceConversion go_type go_type
  | NilPointerDereference

text \<open>\<open>xs[i]\<close> on a slice: Go checks the bound and panics with the index and the length.\<close>

definition index_at :: "'a list \<Rightarrow> nat \<Rightarrow> go_panic + 'a" where
  "index_at xs i = (if i < length xs then Inr (xs ! i) else Inl (IndexOutOfRange i (length xs)))"

section \<open>Pixels and the palette\<close>

text \<open>\<^verbatim>\<open>type Pixel [4]uint8\<close>: an array of exactly four bytes, read and written by position.\<close>

datatype Pixel = Pixel uint8 uint8 uint8 uint8

fun chan :: "Pixel \<Rightarrow> nat \<Rightarrow> uint8" where
  "chan (Pixel c0 c1 c2 c3) i =
     (if i = 0 then c0 else if i = 1 then c1 else if i = 2 then c2 else c3)"

fun set_chan :: "Pixel \<Rightarrow> nat \<Rightarrow> uint8 \<Rightarrow> Pixel" where
  "set_chan (Pixel c0 c1 c2 c3) i v =
     (if i = 0 then Pixel v c1 c2 c3 else if i = 1 then Pixel c0 v c2 c3
      else if i = 2 then Pixel c0 c1 v c3 else Pixel c0 c1 c2 v)"

text \<open>
  \<^verbatim>\<open>float64(channelValue)\<close>, \<^verbatim>\<open>math.Floor\<close> and the conversion \<^verbatim>\<open>uint8(...)\<close>. A byte is
  exact as a float64, the product of two bytes is an integer below \<open>2^16\<close> and exact as
  well, and the one rounding of the division by 255 cannot reach the next integer (a
  quotient that is not an integer is at least \<open>1/255\<close> away from one); so the real
  numbers compute what the floating-point operations compute.
\<close>

definition float64 :: "uint8 \<Rightarrow> real" where
  "float64 c = real (unat c)"

definition uint8_of :: "int \<Rightarrow> uint8" where
  "uint8_of z = word_of_int z"

text \<open>
  \<^verbatim>\<open>multiplyColor\<close>: \<open>newPixel\<close> starts as the zero array; the loop runs over the four
  positions of \<open>inputPixel\<close>.
\<close>

definition multiplyColor :: "Pixel \<Rightarrow> uint8 \<Rightarrow> Pixel" where
  "multiplyColor inputPixel multiplier =
     foldl (\<lambda>newPixel i.
        if i < 3
        then set_chan newPixel i
               (uint8_of \<lfloor>float64 (chan inputPixel i) * float64 multiplier / 255\<rfloor>)
        else set_chan newPixel i (chan inputPixel i))
      (Pixel 0 0 0 0) [0, 1, 2, 3]"

definition baseColors :: "Pixel list" where
  "baseColors = [
      Pixel 0 0 0 0, Pixel 127 178 56 255, Pixel 247 233 163 255,
      Pixel 199 199 199 255, Pixel 255 0 0 255, Pixel 160 160 255 255,
      Pixel 167 167 167 255, Pixel 0 124 0 255, Pixel 255 255 255 255,
      Pixel 164 168 184 255, Pixel 151 109 77 255, Pixel 112 112 112 255,
      Pixel 64 64 255 255, Pixel 143 119 72 255, Pixel 255 252 245 255,
      Pixel 216 127 51 255, Pixel 178 76 216 255, Pixel 102 153 216 255,
      Pixel 229 229 51 255, Pixel 127 204 25 255, Pixel 242 127 165 255,
      Pixel 76 76 76 255, Pixel 153 153 153 255, Pixel 76 127 153 255,
      Pixel 127 63 178 255, Pixel 51 76 178 255, Pixel 102 76 51 255,
      Pixel 102 127 51 255, Pixel 153 51 51 255, Pixel 25 25 25 255,
      Pixel 250 238 77 255, Pixel 92 219 213 255, Pixel 74 128 255 255,
      Pixel 0 217 58 255, Pixel 129 86 49 255, Pixel 112 2 0 255,
      Pixel 209 177 161 255, Pixel 159 82 36 255, Pixel 149 87 108 255,
      Pixel 112 108 138 255, Pixel 186 133 36 255, Pixel 103 117 53 255,
      Pixel 160 77 78 255, Pixel 57 41 35 255, Pixel 135 107 98 255,
      Pixel 87 92 92 255, Pixel 122 73 88 255, Pixel 76 62 92 255,
      Pixel 76 50 35 255, Pixel 76 82 42 255, Pixel 142 60 46 255,
      Pixel 37 22 16 255, Pixel 189 48 49 255, Pixel 148 63 97 255,
      Pixel 92 25 29 255, Pixel 22 126 134 255, Pixel 58 142 140 255,
      Pixel 86 44 62 255, Pixel 20 180 133 255, Pixel 100 100 100 255,
      Pixel 216 175 147 255, Pixel 127 167 150 255
    ]"

definition multipliers :: "uint8 list" where
  "multipliers = [180, 220, 255, 135]"

text \<open>The two nested \<^verbatim>\<open>range\<close> loops of \<^verbatim>\<open>createAllColors\<close>, each appending to \<open>allColors\<close>.\<close>

primrec multipliers_loop :: "Pixel \<Rightarrow> uint8 list \<Rightarrow> Pixel list \<Rightarrow> Pixel list" where
  "multipliers_loop color [] allColors = allColors"
| "multipliers_loop color (multiplier # rest) allColors =
     multipliers_loop color rest (allColors @ [multiplyColor color multiplier])"

primrec baseColors_loop :: "Pixel list \<Rightarrow> uint8 list \<Rightarrow> Pixel list \<Rightarrow> Pixel list" where
  "baseColors_loop [] ms allColors = allColors"
| "baseColors_loop (color # rest) ms allColors =
     baseColors_loop rest ms (multipliers_loop color ms allColors)"

definition createAllColors :: "Pixel list" where
  "createAllColors = baseColors_loop baseColors multipliers []"

section \<open>The image\<close>

text \<open>
  The standard library's \<^verbatim>\<open>image.Rectangle\<close>, \<^verbatim>\<open>color.RGBA\<close> and \<^verbatim>\<open>image.RGBA\<close>, with the
  operations the exporter calls. An \<^verbatim>\<open>image.RGBA\<close> holds its pixels in one byte slice
  \<open>Pix\<close>, four bytes per pixel, \<open>Stride\<close> bytes per row. \<^verbatim>\<open>Set\<close> and \<^verbatim>\<open>RGBAAt\<close> ignore a
  point outside the rectangle. \<^verbatim>\<open>Set\<close> converts the colour with \<^verbatim>\<open>color.RGBAModel\<close>, which
  returns a \<^verbatim>\<open>color.RGBA\<close> unchanged.
\<close>

record Rectangle =
  Min_X :: nat
  Min_Y :: nat
  Max_X :: nat
  Max_Y :: nat

record color_RGBA =
  R :: uint8
  G :: uint8
  B :: uint8
  A :: uint8

record image_RGBA =
  Pix :: "uint8 list"
  Stride :: nat
  Rect :: Rectangle

definition image_Rect :: "nat \<Rightarrow> nat \<Rightarrow> nat \<Rightarrow> nat \<Rightarrow> Rectangle" where
  "image_Rect x0 y0 x1 y1 =
     \<lparr>Min_X = min x0 x1, Min_Y = min y0 y1, Max_X = max x0 x1, Max_Y = max y0 y1\<rparr>"

definition Dx :: "Rectangle \<Rightarrow> nat" where
  "Dx r = Max_X r - Min_X r"

definition Dy :: "Rectangle \<Rightarrow> nat" where
  "Dy r = Max_Y r - Min_Y r"

definition point_In :: "nat \<Rightarrow> nat \<Rightarrow> Rectangle \<Rightarrow> bool" where
  "point_In x y r = (Min_X r \<le> x \<and> x < Max_X r \<and> Min_Y r \<le> y \<and> y < Max_Y r)"

definition NewRGBA :: "Rectangle \<Rightarrow> image_RGBA" where
  "NewRGBA r = \<lparr>Pix = replicate (4 * Dx r * Dy r) 0, Stride = 4 * Dx r, Rect = r\<rparr>"

definition PixOffset :: "image_RGBA \<Rightarrow> nat \<Rightarrow> nat \<Rightarrow> nat" where
  "PixOffset p x y = (y - Min_Y (Rect p)) * Stride p + (x - Min_X (Rect p)) * 4"

definition RGBA_Set :: "image_RGBA \<Rightarrow> nat \<Rightarrow> nat \<Rightarrow> color_RGBA \<Rightarrow> image_RGBA" where
  "RGBA_Set p x y c =
     (if \<not> point_In x y (Rect p) then p
      else let i = PixOffset p x y
           in p\<lparr>Pix := (Pix p)[i := R c, i + 1 := G c, i + 2 := B c, i + 3 := A c]\<rparr>)"

definition RGBAAt :: "image_RGBA \<Rightarrow> nat \<Rightarrow> nat \<Rightarrow> color_RGBA" where
  "RGBAAt p x y =
     (if \<not> point_In x y (Rect p) then \<lparr>R = 0, G = 0, B = 0, A = 0\<rparr>
      else let i = PixOffset p x y
           in \<lparr>R = Pix p ! i, G = Pix p ! (i + 1), B = Pix p ! (i + 2), A = Pix p ! (i + 3)\<rparr>)"

text \<open>
  \<^verbatim>\<open>int(math.Sqrt(float64(n)))\<close> for a length \<open>n\<close>: the largest \<open>r\<close> with \<open>r * r \<le> n\<close>,
  computed here by counting up. \<^verbatim>\<open>math.Sqrt\<close> is correctly rounded, and for a length
  below \<open>2^52\<close> (every slice the program can hold) its truncation is this number.
\<close>

primrec int_Sqrt :: "nat \<Rightarrow> nat" where
  "int_Sqrt 0 = 0"
| "int_Sqrt (Suc n) =
     (let r = int_Sqrt n in if (r + 1) * (r + 1) \<le> Suc n then r + 1 else r)"

text \<open>
  \<^verbatim>\<open>createImageFromPixels\<close>: the inner loop over \<open>x\<close> and the outer loop over \<open>y\<close>, then
  the function. \<open>pixels[index]\<close> is a checked slice access; the colour set at \<open>(x, y)\<close> is
  the literal \<^verbatim>\<open>color.RGBA{R: pixels[index][0], G: pixels[index][1], B: pixels[index][2],
  A: pixels[index][3]}\<close>.
\<close>

function x_loop ::
  "Pixel list \<Rightarrow> nat \<Rightarrow> nat \<Rightarrow> nat \<Rightarrow> image_RGBA \<Rightarrow> go_panic + image_RGBA" where
  "x_loop pixels sideLength y x img =
     (if x < sideLength then
        (let index = y * sideLength + x in
         case index_at pixels index of
           Inl e \<Rightarrow> Inl e
         | Inr px \<Rightarrow>
             x_loop pixels sideLength y (x + 1)
               (RGBA_Set img x y \<lparr>R = chan px 0, G = chan px 1, B = chan px 2, A = chan px 3\<rparr>))
      else Inr img)"
  by pat_completeness auto
termination
  by (relation "measure (\<lambda>(pixels, sideLength, y, x, img). sideLength - x)") auto

function y_loop ::
  "Pixel list \<Rightarrow> nat \<Rightarrow> nat \<Rightarrow> image_RGBA \<Rightarrow> go_panic + image_RGBA" where
  "y_loop pixels sideLength y img =
     (if y < sideLength then
        (case x_loop pixels sideLength y 0 img of
           Inl e \<Rightarrow> Inl e
         | Inr img' \<Rightarrow> y_loop pixels sideLength (y + 1) img')
      else Inr img)"
  by pat_completeness auto
termination
  by (relation "measure (\<lambda>(pixels, sideLength, y, img). sideLength - y)") auto

declare x_loop.simps [simp del] y_loop.simps [simp del]

definition createImageFromPixels :: "Pixel list \<Rightarrow> go_panic + image_RGBA" where
  "createImageFromPixels pixels =
     (let sideLength = int_Sqrt (length pixels);
          img = NewRGBA (image_Rect 0 0 sideLength sideLength)
      in y_loop pixels sideLength 0 img)"

section \<open>The tag tree\<close>

text \<open>
  \<^verbatim>\<open>nbt.Unmarshal\<close> fills a \<^verbatim>\<open>map[string]interface{}\<close>. A value of type \<^verbatim>\<open>interface{}\<close> is
  \<open>nil\<close>, a byte slice, a nested map, or a value of some other dynamic type (named by
  its type). Reading a key a Go map does not hold gives the zero value, \<open>nil\<close>.
\<close>

datatype iface =
    Nil
  | Bytes "uint8 list"
  | Map "(string \<times> iface) list"
  | Other string

type_synonym MapData = "(string \<times> iface) list"

fun dynamic_type :: "iface \<Rightarrow> go_type" where
  "dynamic_type Nil = T_nil"
| "dynamic_type (Bytes bs) = T_bytes"
| "dynamic_type (Map m) = T_map"
| "dynamic_type (Other t) = T_other t"

definition map_index :: "MapData \<Rightarrow> string \<Rightarrow> iface" where
  "map_index m k = (case map_of m k of None \<Rightarrow> Nil | Some v \<Rightarrow> v)"

text \<open>The type assertions \<^verbatim>\<open>v.(map[string]interface{})\<close> and \<^verbatim>\<open>v.([]uint8)\<close>, which panic.\<close>

fun assert_map :: "iface \<Rightarrow> go_panic + MapData" where
  "assert_map (Map m) = Inr m"
| "assert_map v = Inl (InterfaceConversion (dynamic_type v) T_map)"

fun assert_bytes :: "iface \<Rightarrow> go_panic + uint8 list" where
  "assert_bytes (Bytes bs) = Inr bs"
| "assert_bytes v = Inl (InterfaceConversion (dynamic_type v) T_bytes)"

text \<open>Lines 84 and 85 of \<^verbatim>\<open>main\<close>: \<open>mapdata["data"]\<close> as a map, then its \<open>"colors"\<close> as bytes.\<close>

definition extract_colors :: "MapData \<Rightarrow> go_panic + uint8 list" where
  "extract_colors mapdata =
     (case assert_map (map_index mapdata ''data'') of
        Inl e \<Rightarrow> Inl e
      | Inr data \<Rightarrow> assert_bytes (map_index data ''colors''))"

text \<open>Lines 88 to 93: the palette lookup \<open>allColors[c]\<close> for each byte, then the image.\<close>

primrec colors_loop :: "Pixel list \<Rightarrow> uint8 list \<Rightarrow> Pixel list \<Rightarrow> go_panic + Pixel list" where
  "colors_loop allColors [] pixels = Inr pixels"
| "colors_loop allColors (c # rest) pixels =
     (case index_at allColors (unat c) of
        Inl e \<Rightarrow> Inl e
      | Inr px \<Rightarrow> colors_loop allColors rest (pixels @ [px]))"

definition create_image :: "Pixel list \<Rightarrow> uint8 list \<Rightarrow> go_panic + image_RGBA" where
  "create_image allColors colors =
     (case colors_loop allColors colors [] of
        Inl e \<Rightarrow> Inl e
      | Inr pixels \<Rightarrow> createImageFromPixels pixels)"

section \<open>Files and the batch\<close>

text \<open>
  The operating system, \<^verbatim>\<open>compress/gzip\<close>, \<^verbatim>\<open>io\<close>, the \<^verbatim>\<open>nbt\<close> package and \<^verbatim>\<open>image/png\<close> are
  outside the program. A directory entry is its name together with what each of these
  calls returns when the program makes it for this entry: the error of \<^verbatim>\<open>os.ReadFile\<close>,
  of \<^verbatim>\<open>gzip.NewReader\<close> (the header), of \<^verbatim>\<open>io.ReadAll\<close> on the gzip reader (the stream), the
  result of \<^verbatim>\<open>nbt.Unmarshal\<close>, and the errors of \<^verbatim>\<open>os.Create\<close> and \<^verbatim>\<open>png.Encode\<close>.
  \<open>None\<close> is Go's \<open>nil\<close> error.
\<close>

type_synonym go_error = string

record entry =
  Name :: string
  ReadFile_err :: "go_error option"
  NewReader_err :: "go_error option"
  ReadAll_err :: "go_error option"
  Unmarshal_res :: "go_error + MapData"
  Create_err :: "go_error option"
  Encode_err :: "go_error option"

text \<open>
  How a call ends: it returns, it calls \<^verbatim>\<open>log.Fatal\<close> (which prints the error and exits
  the process with status 1), or it panics.
\<close>

datatype 'a ending = Return 'a | LogFatal go_error | Panic go_panic

text \<open>
  \<^verbatim>\<open>gunzipWrite\<close>: the error of \<^verbatim>\<open>gzip.NewReader\<close> is assigned and never read, since \<open>err\<close>
  is assigned again by \<^verbatim>\<open>io.ReadAll\<close>. When \<^verbatim>\<open>NewReader\<close> fails, \<open>gr\<close> is a nil
  \<^verbatim>\<open>*gzip.Reader\<close>, and \<^verbatim>\<open>io.ReadAll(gr)\<close> calls its \<^verbatim>\<open>Read\<close> method, which reads a field of
  the nil receiver. The function returns the error of \<^verbatim>\<open>io.ReadAll\<close>.
\<close>

definition gunzipWrite :: "entry \<Rightarrow> go_panic + go_error option" where
  "gunzipWrite e =
     (case NewReader_err e of
        Some err \<Rightarrow> Inl NilPointerDereference
      | None \<Rightarrow>
          (case ReadAll_err e of
             Some err \<Rightarrow> Inr (Some err)
           | None \<Rightarrow> Inr None))"

definition openFile :: "entry \<Rightarrow> MapData ending" where
  "openFile e =
     (case ReadFile_err e of
        Some err \<Rightarrow> LogFatal err
      | None \<Rightarrow>
          (case gunzipWrite e of
             Inl p \<Rightarrow> Panic p
           | Inr (Some err) \<Rightarrow> LogFatal err
           | Inr None \<Rightarrow>
               (case Unmarshal_res e of
                  Inl err \<Rightarrow> LogFatal err
                | Inr mapdata \<Rightarrow> Return mapdata)))"

text \<open>\<^verbatim>\<open>strings.HasPrefix\<close> and \<^verbatim>\<open>strings.HasSuffix\<close>.\<close>

definition HasPrefix :: "string \<Rightarrow> string \<Rightarrow> bool" where
  "HasPrefix s p = (length p \<le> length s \<and> take (length p) s = p)"

definition HasSuffix :: "string \<Rightarrow> string \<Rightarrow> bool" where
  "HasSuffix s p = (length p \<le> length s \<and> drop (length s - length p) s = p)"

text \<open>
  The goroutine of \<^verbatim>\<open>main\<close> for one entry. It ends by saving the image under the output
  name, by printing an error and returning (a failed \<^verbatim>\<open>os.Create\<close> or \<^verbatim>\<open>png.Encode\<close>), in
  \<^verbatim>\<open>log.Fatal\<close>, or in a panic. No goroutine recovers a panic.
\<close>

datatype task_end =
    Saved string image_RGBA
  | Reported string go_error
  | Fatal go_error
  | Panicked go_panic

definition goroutine :: "Pixel list \<Rightarrow> entry \<Rightarrow> task_end" where
  "goroutine allColors e =
     (case openFile e of
        LogFatal err \<Rightarrow> Fatal err
      | Panic p \<Rightarrow> Panicked p
      | Return mapdata \<Rightarrow>
          (case extract_colors mapdata of
             Inl p \<Rightarrow> Panicked p
           | Inr colors \<Rightarrow>
               (case create_image allColors colors of
                  Inl p \<Rightarrow> Panicked p
                | Inr img \<Rightarrow>
                    (let outputFileName = take (length (Name e) - 4) (Name e) @ ''.png'' in
                     case Create_err e of
                       Some err \<Rightarrow> Reported ''Error creating output file:'' err
                     | None \<Rightarrow>
                         (case Encode_err e of
                            Some err \<Rightarrow> Reported ''Error encoding PNG:'' err
                          | None \<Rightarrow> Saved outputFileName img)))))"

text \<open>
  \<^verbatim>\<open>main\<close> from the line that builds the palette: one goroutine per entry whose name has
  the prefix \<open>map_\<close> and the suffix \<open>.dat\<close>, then, after \<^verbatim>\<open>wg.Wait()\<close>, the summary line
  \<open>exported <len(entries)> maps in <elapsed>\<close>. The goroutines share the palette only, and
  only read it, so each ends as \<open>goroutine\<close> says whatever the schedule.

  What the schedule does decide is how the run ends, so \<open>main_run\<close> is the set of the
  possible endings. \<open>Terminated ends\<close>: the process is ended by one of the listed
  endings before \<^verbatim>\<open>main\<close> prints the summary, and files whose goroutines were still
  running are not written. \<open>Finished ends n\<close>: \<^verbatim>\<open>main\<close> passes \<^verbatim>\<open>wg.Wait()\<close> and prints
  the summary with the number \<open>n\<close>, every goroutine having ended as listed.
  \<^item> A goroutine that ends in \<^verbatim>\<open>log.Fatal\<close> exits the process without running its
    deferred \<^verbatim>\<open>wg.Done()\<close>, so \<^verbatim>\<open>wg.Wait()\<close> never returns: the run is terminated.
  \<^item> A goroutine that panics runs its deferred \<^verbatim>\<open>wg.Done()\<close> while the panic unwinds,
    and then the runtime ends the process. Usually that terminates the run; when every
    other goroutine has ended as well, \<^verbatim>\<open>main\<close> is released and may print the summary
    before the process is gone. Both endings are possible.
  \<^item> Otherwise \<^verbatim>\<open>main\<close> finishes.
  The elapsed time and the exit status are not part of the model.
\<close>

definition dispatched :: "entry list \<Rightarrow> entry list" where
  "dispatched entries =
     filter (\<lambda>e. HasPrefix (Name e) ''map_'' \<and> HasSuffix (Name e) ''.dat'') entries"

fun fatal_end :: "task_end \<Rightarrow> bool" where
  "fatal_end (Fatal err) = True"
| "fatal_end t = False"

fun panic_end :: "task_end \<Rightarrow> bool" where
  "panic_end (Panicked p) = True"
| "panic_end t = False"

definition ends_process :: "task_end \<Rightarrow> bool" where
  "ends_process t = (fatal_end t \<or> panic_end t)"

datatype run_end =
    Terminated "task_end list"
  | Finished "task_end list" nat

definition main_run :: "entry list \<Rightarrow> run_end set" where
  "main_run entries =
     (let allColors = createAllColors;
          ends = map (goroutine allColors) (dispatched entries)
      in if list_ex fatal_end ends then {Terminated (filter ends_process ends)}
         else if list_ex panic_end ends
         then {Terminated (filter ends_process ends), Finished ends (length entries)}
         else {Finished ends (length entries)})"

section \<open>Invariants of the image loops\<close>

text \<open>
  An image made by \<open>NewRGBA (image_Rect 0 0 s s)\<close> keeps its rectangle, its stride and
  the length of \<open>Pix\<close> under \<open>RGBA_Set\<close>. \<open>flat_pixel img k\<close> are the four bytes of pixel
  \<open>k\<close> in row-major order, \<open>color_of px\<close> is the colour the inner loop sets for the pixel
  \<open>px\<close>, and \<open>painted pixels img n\<close> says that the first \<open>n\<close> pixels of the image hold the
  first \<open>n\<close> of \<open>pixels\<close>.
\<close>

definition wf_image :: "nat \<Rightarrow> image_RGBA \<Rightarrow> bool" where
  "wf_image s img \<longleftrightarrow>
     Rect img = \<lparr>Min_X = 0, Min_Y = 0, Max_X = s, Max_Y = s\<rparr> \<and> Stride img = 4 * s \<and>
     length (Pix img) = 4 * (s * s)"

definition flat_pixel :: "image_RGBA \<Rightarrow> nat \<Rightarrow> color_RGBA" where
  "flat_pixel img k =
     \<lparr>R = Pix img ! (4 * k), G = Pix img ! (4 * k + 1), B = Pix img ! (4 * k + 2),
      A = Pix img ! (4 * k + 3)\<rparr>"

definition color_of :: "Pixel \<Rightarrow> color_RGBA" where
  "color_of px = \<lparr>R = chan px 0, G = chan px 1, B = chan px 2, A = chan px 3\<rparr>"

definition painted :: "Pixel list \<Rightarrow> image_RGBA \<Rightarrow> nat \<Rightarrow> bool" where
  "painted pixels img n \<longleftrightarrow> (\<forall>k<n. flat_pixel img k = color_of (pixels ! k))"

section \<open>Example directory entries\<close>

text \<open>
  \<open>decoded_entry\<close> is an entry every call succeeds on, decoding to the given tag tree.
  \<open>good_entry\<close> holds a 2-by-2 map; \<open>no_colors_entry\<close> decodes to a tree whose \<open>data\<close> has
  no \<open>colors\<close>; the gzip stream of \<open>truncated_entry\<close> has a good header and ends early
  (\<^verbatim>\<open>io.ReadAll\<close> returns \<^verbatim>\<open>io.ErrUnexpectedEOF\<close>); the colour bytes of \<open>bad_index_entry\<close> hold
  255; \<open>notes_entry\<close> is a file of another name.
\<close>

definition decoded_entry :: "string \<Rightarrow> MapData \<Rightarrow> entry" where
  "decoded_entry name mapdata =
     \<lparr>Name = name, ReadFile_err = None, NewReader_err = None, ReadAll_err = None,
      Unmarshal_res = Inr mapdata, Create_err = None, Encode_err = None\<rparr>"

definition good_entry :: entry where
  "good_entry = decoded_entry ''map_1.dat'' [(''data'', Map [(''colors'', Bytes [4, 5, 6, 7])])]"

definition no_colors_entry :: entry where
  "no_colors_entry = decoded_entry ''map_0.dat'' [(''data'', Map [(''scale'', Other ''int8'')])]"

definition truncated_entry :: entry where
  "truncated_entry = (decoded_entry ''map_0.dat'' [])\<lparr>ReadAll_err := Some ''unexpected EOF''\<rparr>"

definition bad_index_entry :: entry where
  "bad_index_entry =
     decoded_entry ''map_7.dat'' [(''data'', Map [(''colors'', Bytes [0, 255, 3])])]"

definition notes_entry :: entry where
  "notes_entry = decoded_entry ''notes.txt'' []"

section \<open>Scaling a colour\<close>

lemma floor_scale: "\<lfloor>float64 c * float64 m / 255\<rfloor> = int (unat c * unat m div 255)"
  unfolding float64_def
  by (metis floor_divide_of_nat_eq of_nat_mult of_nat_numeral)

lemma scale_le: "unat (c::uint8) * unat (m::uint8) div 255 \<le> unat c"
proof -
  have "unat m < 2 ^ LENGTH(8)" by (rule unsigned_less)
  then have "unat m \<le> 255" by simp
  then have "unat c * unat m \<le> unat c * 255" by simp
  then have "unat c * unat m div 255 \<le> unat c * 255 div 255" by (rule div_le_mono)
  then show ?thesis by simp
qed

lemma unat_scaled:
  "unat (uint8_of \<lfloor>float64 c * float64 m / 255\<rfloor>) = unat c * unat m div 255"
proof -
  have "unat c < 2 ^ LENGTH(8)" by (rule unsigned_less)
  with scale_le [of c m] have "unat c * unat m div 255 < 2 ^ LENGTH(8)" by linarith
  then have "unat (of_nat (unat c * unat m div 255) :: uint8) = unat c * unat m div 255"
    by (simp only: unat_of_nat mod_less)
  moreover have "uint8_of (int (unat c * unat m div 255)) = of_nat (unat c * unat m div 255)"
    unfolding uint8_of_def by (simp only: of_int_of_nat_eq)
  ultimately show ?thesis
    by (simp only: floor_scale)
qed

lemma multiplyColor_Pixel:
  "multiplyColor (Pixel r g b a) m =
     Pixel (uint8_of \<lfloor>float64 r * float64 m / 255\<rfloor>)
           (uint8_of \<lfloor>float64 g * float64 m / 255\<rfloor>)
           (uint8_of \<lfloor>float64 b * float64 m / 255\<rfloor>) a"
  by (simp add: multiplyColor_def)

lemma scale_255: "uint8_of \<lfloor>float64 c * float64 255 / 255\<rfloor> = c"
proof -
  have "unat (uint8_of \<lfloor>float64 c * float64 255 / 255\<rfloor>) = unat c"
    by (simp add: unat_scaled)
  then show ?thesis by (simp only: word_unat_eq_iff)
qed

text \<open>
  Claim C3. For every pixel and every multiplier byte, the first three channels of
  \<open>multiplyColor\<close>'s result are the integer quotient \<open>channel * multiplier div 255\<close> (the
  floor of the product divided by 255, never rounded up) and the alpha channel is the
  input's; \<open>multiplyColor {200,100,50,255} 180 = {141,70,35,255}\<close>.
\<close>

theorem multiplyColor_floor_division:
  "unat (chan (multiplyColor p m) 0) = unat (chan p 0) * unat m div 255 \<and>
   unat (chan (multiplyColor p m) 1) = unat (chan p 1) * unat m div 255 \<and>
   unat (chan (multiplyColor p m) 2) = unat (chan p 2) * unat m div 255 \<and>
   chan (multiplyColor p m) 3 = chan p 3 \<and>
   multiplyColor (Pixel 200 100 50 255) 180 = Pixel 141 70 35 255"
proof -
  obtain r g b a where p: "p = Pixel r g b a" by (cases p)
  have ex: "multiplyColor (Pixel 200 100 50 255) 180 = Pixel 141 70 35 255"
    by (simp add: multiplyColor_def float64_def uint8_of_def)
  show ?thesis
    unfolding p multiplyColor_Pixel by (simp add: unat_scaled ex [unfolded multiplyColor_Pixel])
qed

text \<open>
  Claim C8. With multiplier 255, \<open>multiplyColor\<close> returns its input pixel: for every byte
  \<open>c\<close>, \<open>c * 255 div 255 = c\<close>, and the value the code stores for it is \<open>c\<close>.
\<close>

theorem multiplyColor_255_identity:
  "multiplyColor p 255 = p \<and>
   (\<forall>c :: uint8. unat c * 255 div 255 = unat c \<and>
      uint8_of \<lfloor>float64 c * float64 255 / 255\<rfloor> = c)"
proof -
  obtain r g b a where p: "p = Pixel r g b a" by (cases p)
  show ?thesis unfolding p multiplyColor_Pixel by (simp add: scale_255)
qed

section \<open>The palette\<close>

lemma multipliers_loop_eq:
  "multipliers_loop color ms allColors = allColors @ map (multiplyColor color) ms"
  by (induction ms arbitrary: allColors) simp_all

lemma baseColors_loop_eq:
  "baseColors_loop bs ms allColors =
     allColors @ concat (map (\<lambda>color. map (multiplyColor color) ms) bs)"
  by (induction bs arbitrary: allColors) (simp_all add: multipliers_loop_eq)

lemma length_concat_rows:
  "length (concat (map (\<lambda>c. map (f c) ms) bs)) = length bs * length ms"
  by (induction bs) simp_all

lemma nth_concat_rows:
  "b < length bs \<Longrightarrow> m < length ms \<Longrightarrow>
   concat (map (\<lambda>c. map (f c) ms) bs) ! (b * length ms + m) = f (bs ! b) (ms ! m)"
proof (induction bs arbitrary: b)
  case Nil
  then show ?case by simp
next
  case (Cons c bs)
  show ?case
  proof (cases b)
    case 0
    with Cons.prems show ?thesis by (simp add: nth_append)
  next
    case (Suc b')
    with Cons.prems have "b' < length bs" by simp
    from Cons.IH [OF this Cons.prems(2)] Suc Cons.prems(2) show ?thesis
      by (simp add: nth_append)
  qed
qed

lemma length_baseColors: "length baseColors = 62"
  by (simp add: baseColors_def)

lemma length_multipliers: "length multipliers = 4"
  by (simp add: multipliers_def)

lemma length_createAllColors: "length createAllColors = 248"
  by (simp add: createAllColors_def baseColors_loop_eq length_concat_rows
      length_baseColors length_multipliers)

lemma createAllColors_nth:
  assumes "b < length baseColors" "m < length multipliers"
  shows "createAllColors ! (b * 4 + m) = multiplyColor (baseColors ! b) (multipliers ! m)"
  using nth_concat_rows [OF assms, of multiplyColor]
  by (simp add: createAllColors_def baseColors_loop_eq length_multipliers)

text \<open>
  Claim C2. The palette is laid out by base colour, then by multiplier: for every
  \<open>baseIndex\<close> into the base-colour table and every \<open>multiplierIndex\<close> in 0..3, the entry
  at \<open>baseIndex * 4 + multiplierIndex\<close> is
  \<open>multiplyColor (baseColors[baseIndex]) (multipliers[multiplierIndex])\<close>.
\<close>

theorem createAllColors_layout:
  assumes "baseIndex < length baseColors" and "multiplierIndex < 4"
  shows "length multipliers = 4 \<and>
         baseIndex * 4 + multiplierIndex < length createAllColors \<and>
         createAllColors ! (baseIndex * 4 + multiplierIndex) =
           multiplyColor (baseColors ! baseIndex) (multipliers ! multiplierIndex)"
  using assms createAllColors_nth [of baseIndex multiplierIndex]
  by (simp add: length_multipliers length_createAllColors length_baseColors)

text \<open>The layout at base colour 1 and multiplier 1, which is palette entry 5.\<close>

theorem createAllColors_layout_witness:
  "createAllColors ! 5 = multiplyColor (Pixel 127 178 56 255) 220
   \<and> createAllColors ! 5 = Pixel 109 153 48 255"
  using createAllColors_layout [of 1 1]
  by (simp add: baseColors_def multipliers_def multiplyColor_Pixel float64_def uint8_of_def)

text \<open>
  Claim C9. The palette has exactly 248 entries (62 base colours, 4 multipliers): a byte
  indexes it without a panic exactly when it is at most 247, the bytes 248..255 are out
  of range, and the first four entries are the transparent pixel \<open>{0,0,0,0}\<close>.
\<close>

theorem createAllColors_size:
  "length createAllColors = 248 \<and> length baseColors = 62 \<and> length multipliers = 4 \<and>
   (\<forall>c :: uint8. (\<exists>p. index_at createAllColors (unat c) = Inr p) = (unat c \<le> 247)) \<and>
   (\<forall>c :: uint8. (index_at createAllColors (unat c) = Inl (IndexOutOfRange (unat c) 248))
       = (248 \<le> unat c)) \<and>
   take 4 createAllColors = [Pixel 0 0 0 0, Pixel 0 0 0 0, Pixel 0 0 0 0, Pixel 0 0 0 0]"
proof -
  have n: "\<And>m. m < 4 \<Longrightarrow> createAllColors ! m = Pixel 0 0 0 0"
  proof -
    fix m :: nat assume "m < 4"
    then have "createAllColors ! (0 * 4 + m) = multiplyColor (baseColors ! 0) (multipliers ! m)"
      by (intro createAllColors_nth) (simp_all add: length_baseColors length_multipliers)
    then show "createAllColors ! m = Pixel 0 0 0 0"
      by (simp add: baseColors_def multiplyColor_Pixel float64_def uint8_of_def)
  qed
  have t: "take 4 createAllColors = [Pixel 0 0 0 0, Pixel 0 0 0 0, Pixel 0 0 0 0, Pixel 0 0 0 0]"
  proof (rule nth_equalityI)
    show "length (take 4 createAllColors) =
      length [Pixel 0 0 0 0, Pixel 0 0 0 0, Pixel 0 0 0 0, Pixel 0 0 0 0]"
      by (simp add: length_createAllColors)
  next
    fix i assume "i < length (take 4 createAllColors)"
    then have i: "i < 4" by simp
    then have "i = 0 \<or> i = 1 \<or> i = 2 \<or> i = 3" by arith
    then have "[Pixel 0 0 0 0, Pixel 0 0 0 0, Pixel 0 0 0 0, Pixel 0 0 0 0] ! i = Pixel 0 0 0 0"
      by auto
    with i n [OF i] show "take 4 createAllColors ! i =
      [Pixel 0 0 0 0, Pixel 0 0 0 0, Pixel 0 0 0 0, Pixel 0 0 0 0] ! i" by simp
  qed
  show ?thesis
    by (auto simp: length_createAllColors length_baseColors length_multipliers index_at_def t)
qed

section \<open>The side length\<close>

text \<open>\<open>int_Sqrt n\<close> is the floor of the real square root of \<open>n\<close>.\<close>

lemma int_Sqrt_bounds: "int_Sqrt n * int_Sqrt n \<le> n \<and> n < (int_Sqrt n + 1) * (int_Sqrt n + 1)"
  by (induction n) (auto simp: Let_def)

lemma int_Sqrt_unique:
  assumes "k * k \<le> n" "n < (k + 1) * (k + 1)"
  shows "int_Sqrt n = k"
proof -
  let ?r = "int_Sqrt n"
  from int_Sqrt_bounds [of n] have r: "?r * ?r \<le> n" "n < (?r + 1) * (?r + 1)" by simp_all
  have "\<not> ?r < k"
  proof
    assume "?r < k"
    then have "?r + 1 \<le> k" by simp
    then have "(?r + 1) * (?r + 1) \<le> k * k" by (simp only: mult_le_mono)
    with r assms show False by linarith
  qed
  moreover have "\<not> k < ?r"
  proof
    assume "k < ?r"
    then have "k + 1 \<le> ?r" by simp
    then have "(k + 1) * (k + 1) \<le> ?r * ?r" by (simp only: mult_le_mono)
    with r assms show False by linarith
  qed
  ultimately show ?thesis by simp
qed

lemma int_Sqrt_square: "int_Sqrt (k * k) = k"
  by (rule int_Sqrt_unique) simp_all

lemma int_Sqrt_real: "int (int_Sqrt n) = \<lfloor>sqrt (real n)\<rfloor>"
proof -
  let ?r = "int_Sqrt n"
  from int_Sqrt_bounds [of n] have r: "?r * ?r \<le> n" "n < (?r + 1) * (?r + 1)" by simp_all
  have "real (?r * ?r) \<le> real n" using r(1) by (simp only: of_nat_le_iff)
  then have "(real ?r)\<^sup>2 \<le> real n" by (simp add: power2_eq_square)
  then have lo: "real ?r \<le> sqrt (real n)" by (rule real_le_rsqrt)
  have "real n < real ((?r + 1) * (?r + 1))" using r(2) by (simp only: of_nat_less_iff)
  then have "real n < (real ?r + 1)\<^sup>2" by (simp add: power2_eq_square algebra_simps)
  then have hi: "sqrt (real n) < real ?r + 1" by (intro real_less_lsqrt) simp_all
  have "\<lfloor>sqrt (real n)\<rfloor> = int ?r"
    by (rule floor_unique) (use lo hi in simp_all)
  then show ?thesis by simp
qed

section \<open>The image loops\<close>

lemma image_Rect_square: "image_Rect 0 0 s s = \<lparr>Min_X = 0, Min_Y = 0, Max_X = s, Max_Y = s\<rparr>"
  by (simp add: image_Rect_def)

lemma NewRGBA_wf: "wf_image s (NewRGBA (image_Rect 0 0 s s))"
  by (simp add: wf_image_def NewRGBA_def image_Rect_square Dx_def Dy_def)

lemma flat_less: "x < s \<Longrightarrow> y < s \<Longrightarrow> y * s + x < s * (s::nat)"
proof -
  assume x: "x < s" and y: "y < s"
  from y have "Suc y \<le> s" by simp
  then have "Suc y * s \<le> s * s" by (rule mult_le_mono1)
  with x show ?thesis by simp
qed

lemma RGBAAt_flat:
  "wf_image s img \<Longrightarrow> x < s \<Longrightarrow> y < s \<Longrightarrow> RGBAAt img x y = flat_pixel img (y * s + x)"
  by (simp add: wf_image_def RGBAAt_def point_In_def PixOffset_def flat_pixel_def Let_def
      algebra_simps)

lemma RGBA_Set_flat:
  "wf_image s img \<Longrightarrow> x < s \<Longrightarrow> y < s \<Longrightarrow>
   RGBA_Set img x y c =
     img\<lparr>Pix := (Pix img)[4 * (y * s + x) := R c, 4 * (y * s + x) + 1 := G c,
                4 * (y * s + x) + 2 := B c, 4 * (y * s + x) + 3 := A c]\<rparr>"
  by (simp add: wf_image_def RGBA_Set_def point_In_def PixOffset_def Let_def algebra_simps)

lemma RGBA_Set_wf:
  "wf_image s img \<Longrightarrow> x < s \<Longrightarrow> y < s \<Longrightarrow> wf_image s (RGBA_Set img x y c)"
  by (simp add: RGBA_Set_flat) (simp add: wf_image_def)

lemma flat_pixel_update_same:
  assumes "4 * k + 3 < length pix"
  shows "flat_pixel (img\<lparr>Pix := pix[4 * k := r, 4 * k + 1 := g, 4 * k + 2 := b, 4 * k + 3 := a]\<rparr>) k
         = \<lparr>R = r, G = g, B = b, A = a\<rparr>"
  using assms by (simp add: flat_pixel_def nth_list_update)

lemma flat_pixel_update_other:
  assumes "j \<noteq> k"
  shows "flat_pixel (img\<lparr>Pix := pix[4 * k := r, 4 * k + 1 := g, 4 * k + 2 := b, 4 * k + 3 := a]\<rparr>) j
         = flat_pixel (img\<lparr>Pix := pix\<rparr>) j"
proof -
  from assms have "4 * j \<noteq> 4 * k" "4 * j \<noteq> 4 * k + 1" "4 * j \<noteq> 4 * k + 2" "4 * j \<noteq> 4 * k + 3"
    "4 * j + 1 \<noteq> 4 * k" "4 * j + 1 \<noteq> 4 * k + 1" "4 * j + 1 \<noteq> 4 * k + 2" "4 * j + 1 \<noteq> 4 * k + 3"
    "4 * j + 2 \<noteq> 4 * k" "4 * j + 2 \<noteq> 4 * k + 1" "4 * j + 2 \<noteq> 4 * k + 2" "4 * j + 2 \<noteq> 4 * k + 3"
    "4 * j + 3 \<noteq> 4 * k" "4 * j + 3 \<noteq> 4 * k + 1" "4 * j + 3 \<noteq> 4 * k + 2" "4 * j + 3 \<noteq> 4 * k + 3"
    by presburger+
  then show ?thesis
    unfolding flat_pixel_def by (simp add: nth_list_update_neq del: One_nat_def)
qed

lemma flat_pixel_Set:
  assumes "wf_image s img" "x < s" "y < s"
  shows "flat_pixel (RGBA_Set img x y c) j = (if j = y * s + x then c else flat_pixel img j)"
proof -
  let ?k = "y * s + x"
  from assms have len: "4 * ?k + 3 < length (Pix img)"
    using flat_less [of x s y] by (simp add: wf_image_def)
  have c: "\<lparr>R = R c, G = G c, B = B c, A = A c\<rparr> = c" by simp
  have same: "img\<lparr>Pix := Pix img\<rparr> = img" by simp
  show ?thesis
    unfolding RGBA_Set_flat [OF assms]
    using flat_pixel_update_same [OF len, where img = img and r = "R c" and g = "G c"
        and b = "B c" and a = "A c"]
      flat_pixel_update_other [where j = j and k = ?k and img = img and pix = "Pix img"
        and r = "R c" and g = "G c" and b = "B c" and a = "A c"]
    by (simp only: c same split: if_split) simp
qed

lemma x_loop_paints:
  assumes "wf_image s img" "y < s" "x \<le> s" "y * s + s \<le> length pixels"
    "painted pixels img (y * s + x)"
  shows "\<exists>img'. x_loop pixels s y x img = Inr img' \<and> wf_image s img' \<and>
           painted pixels img' (y * s + s)"
  using assms
proof (induction pixels s y x img rule: x_loop.induct)
  case (1 pixels s y x img)
  show ?case
  proof (cases "x < s")
    case False
    with "1.prems" have "x = s" by simp
    with "1.prems" show ?thesis by (subst x_loop.simps) simp
  next
    case True
    let ?k = "y * s + x"
    let ?img = "RGBA_Set img x y
      \<lparr>R = chan (pixels ! ?k) 0, G = chan (pixels ! ?k) 1, B = chan (pixels ! ?k) 2,
       A = chan (pixels ! ?k) 3\<rparr>"
    from True "1.prems" have k: "?k < length pixels" by simp
    then have idx: "index_at pixels ?k = Inr (pixels ! ?k)" by (simp add: index_at_def)
    have wf: "wf_image s ?img" using "1.prems" True by (simp add: RGBA_Set_wf)
    have "painted pixels ?img (y * s + (x + 1))"
      unfolding painted_def
    proof (intro allI impI)
      fix j assume "j < y * s + (x + 1)"
      then have "j = ?k \<or> j < ?k" by arith
      then show "flat_pixel ?img j = color_of (pixels ! j)"
        using "1.prems"(5) flat_pixel_Set [OF "1.prems"(1) True "1.prems"(2)]
        by (auto simp: painted_def color_of_def)
    qed
    with "1.IH" [OF True refl idx wf "1.prems"(2) _ "1.prems"(4)] True
    have "\<exists>img'. x_loop pixels s y (x + 1) ?img = Inr img' \<and> wf_image s img' \<and>
           painted pixels img' (y * s + s)" by simp
    then show ?thesis
      using True idx by (subst x_loop.simps) (simp add: Let_def)
  qed
qed

lemma y_loop_paints:
  assumes "wf_image s img" "y \<le> s" "s * s \<le> length pixels" "painted pixels img (y * s)"
  shows "\<exists>img'. y_loop pixels s y img = Inr img' \<and> wf_image s img' \<and>
           painted pixels img' (s * s)"
  using assms
proof (induction pixels s y img rule: y_loop.induct)
  case (1 pixels s y img)
  show ?case
  proof (cases "y < s")
    case False
    with "1.prems" have "y = s" by simp
    with "1.prems" show ?thesis by (subst y_loop.simps) simp
  next
    case True
    then have "Suc y \<le> s" by simp
    then have "Suc y * s \<le> s * s" by (rule mult_le_mono1)
    with "1.prems" have row: "y * s + s \<le> length pixels" by simp
    from x_loop_paints [OF "1.prems"(1) True _ row, of 0] "1.prems"(4)
    obtain img' where x: "x_loop pixels s y 0 img = Inr img'" and wf: "wf_image s img'"
      and p: "painted pixels img' (y * s + s)" by auto
    from p have p': "painted pixels img' ((y + 1) * s)" by (simp add: algebra_simps)
    from "1.IH" [OF True x wf _ "1.prems"(3) p'] True
    have "\<exists>img''. y_loop pixels s (y + 1) img' = Inr img'' \<and> wf_image s img'' \<and>
           painted pixels img'' (s * s)" by simp
    then show ?thesis
      using True x by (subst y_loop.simps) simp
  qed
qed

lemma painted_0: "painted pixels img 0"
  by (simp add: painted_def)

lemma createImageFromPixels_grid:
  "\<exists>img. createImageFromPixels pixels = Inr img \<and> wf_image (int_Sqrt (length pixels)) img \<and>
     painted pixels img (int_Sqrt (length pixels) * int_Sqrt (length pixels))"
proof -
  let ?s = "int_Sqrt (length pixels)"
  have "?s * ?s \<le> length pixels" using int_Sqrt_bounds [of "length pixels"] by simp
  from y_loop_paints [OF NewRGBA_wf _ this, of 0] painted_0
  show ?thesis by (simp add: createImageFromPixels_def Let_def)
qed

lemma index_at_take: "i < n \<Longrightarrow> n \<le> length xs \<Longrightarrow> index_at (take n xs) i = index_at xs i"
  by (simp add: index_at_def)

lemma x_loop_take:
  assumes "y * s + s \<le> n" "n \<le> length pixels"
  shows "x_loop (take n pixels) s y x img = x_loop pixels s y x img"
  using assms
proof (induction "s - x" arbitrary: x img)
  case 0
  then show ?case by (simp add: x_loop.simps [of _ _ _ x])
next
  case (Suc d)
  then have x: "x < s" by simp
  with Suc.prems have "y * s + x < n" by simp
  then have idx: "index_at (take n pixels) (y * s + x) = index_at pixels (y * s + x)"
    using Suc.prems by (simp add: index_at_take)
  from Suc have d: "d = s - Suc x" by simp
  have IH: "x_loop (take n pixels) s y (Suc x) img' = x_loop pixels s y (Suc x) img'" for img'
    by (rule Suc.hyps(1) [OF d Suc.prems])
  show ?case
    by (simp add: x_loop.simps [of _ _ _ x] idx Let_def IH split: sum.split)
qed

lemma y_loop_take:
  assumes "s * s \<le> n" "n \<le> length pixels"
  shows "y_loop (take n pixels) s y img = y_loop pixels s y img"
  using assms
proof (induction "s - y" arbitrary: y img)
  case 0
  then show ?case by (simp add: y_loop.simps [of _ _ y])
next
  case (Suc d)
  then have y: "y < s" by simp
  then have "Suc y \<le> s" by simp
  then have "Suc y * s \<le> s * s" by (rule mult_le_mono1)
  with Suc.prems have row: "y * s + s \<le> n" by simp
  from Suc have d: "d = s - Suc y" by simp
  have IH: "y_loop (take n pixels) s (Suc y) img' = y_loop pixels s (Suc y) img'" for img'
    by (rule Suc.hyps(1) [OF d Suc.prems])
  show ?case
    by (simp add: y_loop.simps [of _ _ y] x_loop_take [OF row Suc.prems(2)] IH split: sum.split)
qed

lemma createImageFromPixels_take:
  "createImageFromPixels (take (int_Sqrt (length pixels) * int_Sqrt (length pixels)) pixels)
     = createImageFromPixels pixels"
proof -
  let ?s = "int_Sqrt (length pixels)"
  have le: "?s * ?s \<le> length pixels" using int_Sqrt_bounds [of "length pixels"] by simp
  then have len: "length (take (?s * ?s) pixels) = ?s * ?s" by simp
  show ?thesis
    unfolding createImageFromPixels_def len int_Sqrt_square Let_def
    by (rule y_loop_take [OF _ le]) simp
qed

section \<open>Rendering\<close>

lemma colors_loop_ok:
  "\<forall>c\<in>set colors. unat c < length allColors \<Longrightarrow>
   colors_loop allColors colors pixels = Inr (pixels @ map (\<lambda>c. allColors ! unat c) colors)"
  by (induction colors arbitrary: pixels) (simp_all add: index_at_def)

lemma colors_loop_panic:
  "c \<in> set colors \<Longrightarrow> length allColors \<le> unat c \<Longrightarrow>
   \<exists>i. length allColors \<le> i \<and> i \<in> unat ` set colors \<and>
       colors_loop allColors colors pixels = Inl (IndexOutOfRange i (length allColors))"
proof (induction colors arbitrary: pixels)
  case Nil
  then show ?case by simp
next
  case (Cons d colors)
  show ?case
  proof (cases "unat d < length allColors")
    case False
    then show ?thesis by (auto simp: index_at_def intro!: exI [of _ "unat d"])
  next
    case True
    with Cons.prems have "c \<in> set colors" by auto
    from Cons.IH [OF this Cons.prems(2), of "pixels @ [allColors ! unat d]"] True
    show ?thesis by (auto simp: index_at_def)
  qed
qed

text \<open>The four bytes of pixel \<open>k\<close> in \<open>Pix\<close>, and four entries of the palette.\<close>

lemma take_drop_pixel:
  assumes "4 * k + 3 < length xs"
  shows "take 4 (drop (4 * k) xs) = [xs ! (4 * k), xs ! (4 * k + 1), xs ! (4 * k + 2), xs ! (4 * k + 3)]"
proof -
  let ?n = "4 * k"
  have d0: "drop ?n xs = xs ! ?n # drop (Suc ?n) xs"
    using assms by (intro Cons_nth_drop_Suc [symmetric]) simp
  have d1: "drop (Suc ?n) xs = xs ! Suc ?n # drop (Suc (Suc ?n)) xs"
    using assms by (intro Cons_nth_drop_Suc [symmetric]) simp
  have d2: "drop (Suc (Suc ?n)) xs = xs ! Suc (Suc ?n) # drop (Suc (Suc (Suc ?n))) xs"
    using assms by (intro Cons_nth_drop_Suc [symmetric]) simp
  have d3: "drop (Suc (Suc (Suc ?n))) xs
      = xs ! Suc (Suc (Suc ?n)) # drop (Suc (Suc (Suc (Suc ?n)))) xs"
    using assms by (intro Cons_nth_drop_Suc [symmetric]) simp
  have "take 4 (drop ?n xs) = [xs ! ?n, xs ! Suc ?n, xs ! Suc (Suc ?n), xs ! Suc (Suc (Suc ?n))]"
    unfolding d0 d1 d2 d3 by simp
  moreover have "Suc ?n = ?n + 1" "Suc (Suc ?n) = ?n + 2" "Suc (Suc (Suc ?n)) = ?n + 3"
    by simp_all
  ultimately show ?thesis by (simp only:)
qed

lemma createAllColors_base_1:
  "createAllColors ! 4 = Pixel 89 125 39 255" "createAllColors ! 5 = Pixel 109 153 48 255"
  "createAllColors ! 6 = Pixel 127 178 56 255" "createAllColors ! 7 = Pixel 67 94 29 255"
  using createAllColors_nth [of 1 0] createAllColors_nth [of 1 1] createAllColors_nth [of 1 2]
    createAllColors_nth [of 1 3]
  by (simp_all add: length_baseColors length_multipliers)
    (simp_all add: baseColors_def multipliers_def multiplyColor_Pixel float64_def uint8_of_def)

text \<open>
  Claim C1. For every sequence of palette indices (each below the palette length), the
  rendered image is a square grid of side \<open>floor (sqrt (len indices))\<close>: the pixel at
  \<open>(x, y)\<close>, \<open>x\<close> and \<open>y\<close> below the side, is the palette entry of the index at flat
  position \<open>y * side + x\<close>, that is, for the entry \<open>{r, g, b, a}\<close> the image has the colour
  \<open>r, g, b, a\<close> at \<open>(x, y)\<close> and these four bytes at offset \<open>4 * (y * side + x)\<close> of its
  pixel buffer; the image is the one rendered from the first \<open>side * side\<close> indices
  alone; and a length \<open>k * k + r\<close> with \<open>r < 2 * k + 1\<close> gives side \<open>k\<close>.
\<close>

theorem create_image_square_grid:
  assumes "\<forall>c\<in>set colors. unat c < length allColors"
  shows "\<exists>img. create_image allColors colors = Inr img \<and>
     (let side = int_Sqrt (length colors) in
        int side = \<lfloor>sqrt (real (length colors))\<rfloor> \<and>
        Rect img = image_Rect 0 0 side side \<and> Dx (Rect img) = side \<and> Dy (Rect img) = side \<and>
        Stride img = 4 * side \<and> length (Pix img) = 4 * side * side \<and>
        (\<forall>x y r g b a. x < side \<and> y < side \<and>
             allColors ! unat (colors ! (y * side + x)) = Pixel r g b a \<longrightarrow>
           RGBAAt img x y = \<lparr>R = r, G = g, B = b, A = a\<rparr> \<and>
           take 4 (drop (4 * (y * side + x)) (Pix img)) = [r, g, b, a]) \<and>
        create_image allColors (take (side * side) colors) = Inr img \<and>
        (\<forall>k r. length colors = k * k + r \<and> r < 2 * k + 1 \<longrightarrow> side = k))"
proof -
  let ?pixels = "map (\<lambda>c. allColors ! unat c) colors"
  let ?s = "int_Sqrt (length colors)"
  have loop: "colors_loop allColors colors [] = Inr ?pixels"
    using colors_loop_ok [OF assms, of "[]"] by simp
  from createImageFromPixels_grid [of ?pixels]
  obtain img where img: "createImageFromPixels ?pixels = Inr img" and wf: "wf_image ?s img"
    and p: "painted ?pixels img (?s * ?s)" by auto
  have le: "?s * ?s \<le> length colors" using int_Sqrt_bounds [of "length colors"] by simp
  have pix: "RGBAAt img x y = \<lparr>R = r, G = g, B = b, A = a\<rparr> \<and>
      take 4 (drop (4 * (y * ?s + x)) (Pix img)) = [r, g, b, a]"
    if "x < ?s" "y < ?s" and e: "allColors ! unat (colors ! (y * ?s + x)) = Pixel r g b a"
    for x y r g b a
  proof -
    let ?k = "y * ?s + x"
    from that have k: "?k < ?s * ?s" by (simp add: flat_less)
    with p have "flat_pixel img ?k = color_of (?pixels ! ?k)"
      by (simp add: painted_def)
    with k le e have f: "flat_pixel img ?k = \<lparr>R = r, G = g, B = b, A = a\<rparr>"
      by (simp add: color_of_def)
    with that wf have "RGBAAt img x y = \<lparr>R = r, G = g, B = b, A = a\<rparr>"
      by (simp add: RGBAAt_flat)
    moreover from k wf have "4 * ?k + 3 < length (Pix img)" by (simp add: wf_image_def)
    then have "take 4 (drop (4 * ?k) (Pix img))
        = [Pix img ! (4 * ?k), Pix img ! (4 * ?k + 1), Pix img ! (4 * ?k + 2), Pix img ! (4 * ?k + 3)]"
      by (rule take_drop_pixel)
    with f have "take 4 (drop (4 * ?k) (Pix img)) = [r, g, b, a]"
      by (simp add: flat_pixel_def)
    ultimately show ?thesis by simp
  qed
  have "\<forall>c\<in>set (take (?s * ?s) colors). unat c < length allColors"
    using assms by (auto dest: in_set_takeD)
  then have "colors_loop allColors (take (?s * ?s) colors) [] = Inr (take (?s * ?s) ?pixels)"
    using colors_loop_ok [of "take (?s * ?s) colors" allColors "[]"] by (simp add: take_map)
  moreover have "createImageFromPixels (take (?s * ?s) ?pixels) = Inr img"
    using createImageFromPixels_take [of ?pixels] img by simp
  ultimately have tk: "create_image allColors (take (?s * ?s) colors) = Inr img"
    by (simp add: create_image_def)
  have rem: "\<forall>k r. length colors = k * k + r \<and> r < 2 * k + 1 \<longrightarrow> ?s = k"
  proof (intro allI impI)
    fix k r assume "length colors = k * k + r \<and> r < 2 * k + 1"
    then show "?s = k" by (intro int_Sqrt_unique) simp_all
  qed
  have c0: "create_image allColors colors = Inr img"
    using loop img by (simp add: create_image_def)
  have c1: "Rect img = image_Rect 0 0 ?s ?s" "Dx (Rect img) = ?s" "Dy (Rect img) = ?s"
    "Stride img = 4 * ?s" "length (Pix img) = 4 * ?s * ?s"
    using wf by (simp_all add: wf_image_def image_Rect_square Dx_def Dy_def)
  have c2: "\<forall>x y r g b a. x < ?s \<and> y < ?s \<and>
        allColors ! unat (colors ! (y * ?s + x)) = Pixel r g b a \<longrightarrow>
      RGBAAt img x y = \<lparr>R = r, G = g, B = b, A = a\<rparr> \<and>
      take 4 (drop (4 * (y * ?s + x)) (Pix img)) = [r, g, b, a]"
    using pix by blast
  have c3: "int ?s = \<lfloor>sqrt (real (length colors))\<rfloor>"
    by (rule int_Sqrt_real)
  from c0 c1 c2 c3 tk rem show ?thesis
    unfolding Let_def by blast
qed

text \<open>
  The indices 4, 5, 6, 7, 8 into the palette, computed step by step: the 2-by-2 image
  of the palette entries 4, 5, 6, 7, byte by byte.
\<close>

lemma create_image_example:
  "create_image createAllColors [4, 5, 6, 7, 8] =
     Inr \<lparr>Pix = [89, 125, 39, 255, 109, 153, 48, 255, 127, 178, 56, 255, 67, 94, 29, 255],
          Stride = 8, Rect = \<lparr>Min_X = 0, Min_Y = 0, Max_X = 2, Max_Y = 2\<rparr>\<rparr>"
proof -
  have l: "colors_loop createAllColors [4, 5, 6, 7, 8] []
      = Inr [Pixel 89 125 39 255, Pixel 109 153 48 255, Pixel 127 178 56 255,
             Pixel 67 94 29 255, createAllColors ! 8]"
    by (simp add: index_at_def length_createAllColors createAllColors_base_1)
  have s: "int_Sqrt 5 = 2"
    by (rule int_Sqrt_unique) simp_all
  have r: "replicate 16 (0 :: uint8) = [0, 0, 0, 0, 0, 0, 0, 0, 0, 0, 0, 0, 0, 0, 0, 0]"
    by (simp add: numeral_eq_Suc)
  have "create_image createAllColors [4, 5, 6, 7, 8]
      = createImageFromPixels [Pixel 89 125 39 255, Pixel 109 153 48 255, Pixel 127 178 56 255,
          Pixel 67 94 29 255, createAllColors ! 8]"
    by (simp only: create_image_def l sum.case)
  then show ?thesis
    by (simp add: createImageFromPixels_def s y_loop.simps x_loop.simps
        index_at_def NewRGBA_def image_Rect_def Dx_def Dy_def r RGBA_Set_def point_In_def
        PixOffset_def Let_def)
qed

text \<open>
  The same input through the theorem: the image it speaks of is that image, it is
  also the image of the first four indices, and its pixels are the palette's bytes.
\<close>

theorem create_image_square_grid_witness:
  "create_image createAllColors [4, 5, 6, 7, 8] =
     Inr \<lparr>Pix = [89, 125, 39, 255, 109, 153, 48, 255, 127, 178, 56, 255, 67, 94, 29, 255],
          Stride = 8, Rect = \<lparr>Min_X = 0, Min_Y = 0, Max_X = 2, Max_Y = 2\<rparr>\<rparr> \<and>
   create_image createAllColors [4, 5, 6, 7] =
     Inr \<lparr>Pix = [89, 125, 39, 255, 109, 153, 48, 255, 127, 178, 56, 255, 67, 94, 29, 255],
          Stride = 8, Rect = \<lparr>Min_X = 0, Min_Y = 0, Max_X = 2, Max_Y = 2\<rparr>\<rparr> \<and>
   RGBAAt \<lparr>Pix = [89, 125, 39, 255, 109, 153, 48, 255, 127, 178, 56, 255, 67, 94, 29, 255],
          Stride = 8, Rect = \<lparr>Min_X = 0, Min_Y = 0, Max_X = 2, Max_Y = 2\<rparr>\<rparr> 1 0
     = \<lparr>R = 109, G = 153, B = 48, A = 255\<rparr> \<and>
   RGBAAt \<lparr>Pix = [89, 125, 39, 255, 109, 153, 48, 255, 127, 178, 56, 255, 67, 94, 29, 255],
          Stride = 8, Rect = \<lparr>Min_X = 0, Min_Y = 0, Max_X = 2, Max_Y = 2\<rparr>\<rparr> 0 1
     = \<lparr>R = 127, G = 178, B = 56, A = 255\<rparr>"
proof -
  let ?I = "\<lparr>Pix = [89, 125, 39, 255, 109, 153, 48, 255, 127, 178, 56, 255, 67, 94, 29, 255],
          Stride = 8, Rect = \<lparr>Min_X = 0, Min_Y = 0, Max_X = 2, Max_Y = 2\<rparr>\<rparr>"
  have s: "int_Sqrt (length [4, 5, 6, 7, 8 :: uint8]) = 2"
    by (rule int_Sqrt_unique) simp_all
  have "\<forall>c\<in>set [4, 5, 6, 7, 8 :: uint8]. unat c < length createAllColors"
    by (simp add: length_createAllColors)
  from create_image_square_grid [OF this, unfolded s Let_def]
  obtain img where img: "create_image createAllColors [4, 5, 6, 7, 8] = Inr img"
    and px: "\<forall>x y r g b a. x < 2 \<and> y < 2 \<and>
        createAllColors ! unat ([4, 5, 6, 7, 8 :: uint8] ! (y * 2 + x)) = Pixel r g b a \<longrightarrow>
      RGBAAt img x y = \<lparr>R = r, G = g, B = b, A = a\<rparr> \<and>
      take 4 (drop (4 * (y * 2 + x)) (Pix img)) = [r, g, b, a]"
    and tk: "create_image createAllColors (take (2 * 2) [4, 5, 6, 7, 8]) = Inr img"
    by blast
  from img have I: "img = ?I" by (simp add: create_image_example)
  from px have "(1::nat) < 2 \<and> (0::nat) < 2 \<and>
      createAllColors ! unat ([4, 5, 6, 7, 8 :: uint8] ! (0 * 2 + 1)) = Pixel 109 153 48 255 \<longrightarrow>
      RGBAAt img 1 0 = \<lparr>R = 109, G = 153, B = 48, A = 255\<rparr>"
    by blast
  then have a: "RGBAAt img 1 0 = \<lparr>R = 109, G = 153, B = 48, A = 255\<rparr>"
    by (simp add: createAllColors_base_1)
  from px have "(0::nat) < 2 \<and> (1::nat) < 2 \<and>
      createAllColors ! unat ([4, 5, 6, 7, 8 :: uint8] ! (1 * 2 + 0)) = Pixel 127 178 56 255 \<longrightarrow>
      RGBAAt img 0 1 = \<lparr>R = 127, G = 178, B = 56, A = 255\<rparr>"
    by blast
  then have b: "RGBAAt img 0 1 = \<lparr>R = 127, G = 178, B = 56, A = 255\<rparr>"
    by (simp add: createAllColors_base_1)
  from tk have "create_image createAllColors [4, 5, 6, 7] = Inr img" by simp
  with a b img show ?thesis unfolding I by simp
qed

text \<open>
  Claim C10. Rendering the empty index sequence returns without a panic, whatever the
  palette: the side length is 0, the lookup loop and the image loops run no step, and
  the result is the empty 0-by-0 image.
\<close>

theorem create_image_empty:
  "create_image allColors [] =
     Inr \<lparr>Pix = [], Stride = 0, Rect = \<lparr>Min_X = 0, Min_Y = 0, Max_X = 0, Max_Y = 0\<rparr>\<rparr> \<and>
   int_Sqrt (length ([] :: Pixel list)) = 0 \<and>
   colors_loop allColors [] [] = Inr [] \<and>
   createImageFromPixels [] = Inr (NewRGBA (image_Rect 0 0 0 0)) \<and>
   Dx (image_Rect 0 0 0 0) = 0 \<and> Dy (image_Rect 0 0 0 0) = 0"
  by (simp add: create_image_def createImageFromPixels_def y_loop.simps NewRGBA_def
      image_Rect_def Dx_def Dy_def)

section \<open>The batch\<close>

lemma openFile_decoded: "openFile (decoded_entry name mapdata) = Return mapdata"
  by (simp add: openFile_def gunzipWrite_def decoded_entry_def)

lemma create_image_ok:
  assumes "\<forall>c\<in>set colors. unat c < length allColors"
  shows "\<exists>img. create_image allColors colors = Inr img"
  using colors_loop_ok [OF assms, of "[]"]
    createImageFromPixels_grid [of "map (\<lambda>c. allColors ! unat c) colors"]
  by (auto simp: create_image_def)

lemma goroutine_saved:
  assumes "openFile e = Return mapdata" "extract_colors mapdata = Inr colors"
    "\<forall>c\<in>set colors. unat c < length allColors" "Create_err e = None" "Encode_err e = None"
  shows "\<exists>img. goroutine allColors e = Saved (take (length (Name e) - 4) (Name e) @ ''.png'') img"
  using create_image_ok [OF assms(3)] assms(1,2,4,5)
  by (auto simp: goroutine_def)

text \<open>A dispatched file that ends in \<^verbatim>\<open>log.Fatal\<close>: every run is terminated.\<close>

lemma main_run_fatal:
  assumes "e \<in> set (dispatched entries)" "fatal_end (goroutine createAllColors e)"
  shows "\<exists>ends. main_run entries = {Terminated ends} \<and> goroutine createAllColors e \<in> set ends"
proof -
  from assms have "list_ex fatal_end (map (goroutine createAllColors) (dispatched entries))"
    by (auto simp: list_ex_iff)
  with assms show ?thesis by (auto simp: main_run_def Let_def ends_process_def)
qed

text \<open>A dispatched file that ends in a panic: the run can be terminated by it.\<close>

lemma main_run_panic:
  assumes "e \<in> set (dispatched entries)" "panic_end (goroutine createAllColors e)"
  shows "\<exists>ends. Terminated ends \<in> main_run entries \<and> goroutine createAllColors e \<in> set ends"
proof -
  from assms have "list_ex panic_end (map (goroutine createAllColors) (dispatched entries))"
    by (auto simp: list_ex_iff)
  with assms show ?thesis by (auto simp: main_run_def Let_def ends_process_def)
qed

lemma good_entry_saved: "\<exists>img. goroutine createAllColors good_entry = Saved ''map_1.png'' img"
proof -
  have "extract_colors [(''data'', Map [(''colors'', Bytes [4, 5, 6, 7])])] = Inr [4, 5, 6, 7]"
    by (simp add: extract_colors_def map_index_def)
  from goroutine_saved [OF openFile_decoded this, of createAllColors "''map_1.dat''"]
  show ?thesis by (simp add: good_entry_def length_createAllColors) (simp add: decoded_entry_def)
qed

lemma dispatched_examples:
  "dispatched [no_colors_entry, good_entry] = [no_colors_entry, good_entry]"
  "dispatched [truncated_entry, good_entry] = [truncated_entry, good_entry]"
  "dispatched [bad_index_entry, good_entry] = [bad_index_entry, good_entry]"
  "dispatched [good_entry, notes_entry] = [good_entry]"
  by (simp_all add: dispatched_def HasPrefix_def HasSuffix_def no_colors_entry_def good_entry_def
      truncated_entry_def bad_index_entry_def notes_entry_def decoded_entry_def)

lemma no_colors_entry_panics:
  "goroutine createAllColors no_colors_entry = Panicked (InterfaceConversion T_nil T_bytes)"
  by (simp add: goroutine_def no_colors_entry_def openFile_decoded extract_colors_def map_index_def)

lemma truncated_entry_fatal:
  "goroutine createAllColors truncated_entry = Fatal ''unexpected EOF''"
  by (simp add: goroutine_def truncated_entry_def openFile_def gunzipWrite_def decoded_entry_def)

lemma bad_index_entry_panics:
  "goroutine createAllColors bad_index_entry = Panicked (IndexOutOfRange 255 248)"
proof -
  have "createAllColors ! 0 = Pixel 0 0 0 0"
    using createAllColors_nth [of 0 0]
    by (simp add: length_baseColors length_multipliers)
      (simp add: baseColors_def multipliers_def multiplyColor_Pixel float64_def uint8_of_def)
  then have "create_image createAllColors [0, 255, 3] = Inl (IndexOutOfRange 255 248)"
    by (simp add: create_image_def index_at_def length_createAllColors)
  then show ?thesis
    by (simp add: goroutine_def bad_index_entry_def openFile_decoded extract_colors_def
        map_index_def)
qed

text \<open>
  A file whose gzip header is refused: \<open>gunzipWrite\<close> does not return the error of
  \<^verbatim>\<open>gzip.NewReader\<close>, it panics on the nil reader.
\<close>

lemma corrupt_header_nil_dereference:
  assumes "ReadFile_err e = None" and "NewReader_err e = Some err"
  shows "gunzipWrite e = Inl NilPointerDereference \<and> openFile e = Panic NilPointerDereference \<and>
    goroutine allColors e = Panicked NilPointerDereference"
  using assms by (simp add: gunzipWrite_def openFile_def goroutine_def)

text \<open>When \<open>main\<close> prints the summary, its number is the number of entries.\<close>

lemma summary_is_entry_count:
  assumes "Finished ends n \<in> main_run entries"
  shows "n = length entries \<and> ends = map (goroutine createAllColors) (dispatched entries) \<and>
    length ends \<le> n"
proof -
  have "length (dispatched entries) \<le> length entries"
    by (simp add: dispatched_def)
  with assms show ?thesis
    by (auto simp: main_run_def Let_def split: if_splits)
qed

text \<open>
  Claim C4 says that an index at or beyond the palette length is reported as an error
  for that file. It fails: for colour bytes holding 255 the goroutine does not end by
  reporting an error, it ends in the run-time panic of the lookup, and the run over
  this file and a good one can be terminated by that panic.
\<close>

theorem bad_index_panics:
  "goroutine createAllColors bad_index_entry = Panicked (IndexOutOfRange 255 248) \<and>
   Terminated [Panicked (IndexOutOfRange 255 248)] \<in> main_run [bad_index_entry, good_entry]"
proof -
  from good_entry_saved obtain img where "goroutine createAllColors good_entry = Saved ''map_1.png'' img" ..
  then show ?thesis
    by (simp add: main_run_def dispatched_examples bad_index_entry_panics ends_process_def)
qed

text \<open>
  Claim C4, amended. When the colour bytes of a file hold a value that is at least the
  palette length, the index is never wrapped or clamped to a palette entry: the lookup
  \<open>allColors[c]\<close> fails with Go's run-time panic ``index out of range'', carrying an
  out-of-range value of the file and the palette length, no pixel sequence and no image
  is produced, and the file's goroutine ends in that panic. The panic is not an error
  reported for the file: nothing recovers it, and it can terminate the whole run.
\<close>

theorem palette_index_out_of_range:
  assumes "c \<in> set colors" and "length allColors \<le> unat c"
    and "openFile e = Return mapdata" and "extract_colors mapdata = Inr colors"
  shows "\<exists>i. length allColors \<le> i \<and> i \<in> unat ` set colors \<and>
     colors_loop allColors colors [] = Inl (IndexOutOfRange i (length allColors)) \<and>
     create_image allColors colors = Inl (IndexOutOfRange i (length allColors)) \<and>
     goroutine allColors e = Panicked (IndexOutOfRange i (length allColors)) \<and>
     (allColors = createAllColors \<and> e \<in> set (dispatched entries) \<longrightarrow>
        (\<exists>ends. Terminated ends \<in> main_run entries \<and>
           Panicked (IndexOutOfRange i (length allColors)) \<in> set ends))"
proof -
  from colors_loop_panic [OF assms(1,2), of "[]"]
  obtain i where i: "length allColors \<le> i" "i \<in> unat ` set colors"
    "colors_loop allColors colors [] = Inl (IndexOutOfRange i (length allColors))" by blast
  then have c: "create_image allColors colors = Inl (IndexOutOfRange i (length allColors))"
    by (simp add: create_image_def)
  with assms(3,4) have g: "goroutine allColors e = Panicked (IndexOutOfRange i (length allColors))"
    by (simp add: goroutine_def)
  have "\<exists>ends. Terminated ends \<in> main_run entries \<and>
      Panicked (IndexOutOfRange i (length allColors)) \<in> set ends"
    if "allColors = createAllColors \<and> e \<in> set (dispatched entries)"
    using main_run_panic [of e entries] g that by auto
  with i c g show ?thesis by blast
qed

text \<open>The byte 255 against the palette of 248 entries, in a directory with a good file.\<close>

theorem palette_index_out_of_range_witness:
  "\<exists>ends. Terminated ends \<in> main_run [bad_index_entry, good_entry] \<and>
     Panicked (IndexOutOfRange 255 248) \<in> set ends \<and>
     goroutine createAllColors bad_index_entry = Panicked (IndexOutOfRange 255 248)"
proof -
  let ?m = "[(''data'', Map [(''colors'', Bytes [0, 255, 3])])]"
  have x: "extract_colors ?m = Inr [0, 255, 3]"
    by (simp add: extract_colors_def map_index_def)
  have o: "openFile bad_index_entry = Return ?m"
    by (simp add: bad_index_entry_def openFile_decoded)
  have d: "bad_index_entry \<in> set (dispatched [bad_index_entry, good_entry])"
    by (simp add: dispatched_examples)
  have "255 \<in> set [0, 255, 3 :: uint8]" "length createAllColors \<le> unat (255 :: uint8)"
    by (simp_all add: length_createAllColors)
  from palette_index_out_of_range [OF this o x, of "[bad_index_entry, good_entry]"] d
  obtain i ends where i: "length createAllColors \<le> i" "i \<in> unat ` set [0, 255, 3 :: uint8]"
    and g: "goroutine createAllColors bad_index_entry
      = Panicked (IndexOutOfRange i (length createAllColors))"
    and t: "Terminated ends \<in> main_run [bad_index_entry, good_entry]"
      "Panicked (IndexOutOfRange i (length createAllColors)) \<in> set ends"
    by blast
  from i have "i = 255" by (auto simp: length_createAllColors)
  with g t show ?thesis by (auto simp: length_createAllColors)
qed

text \<open>
  Claim C5 says that a tag tree of another shape gives an error that is fatal for that
  file only and does not crash the batch. It fails: for a tree whose \<open>data\<close> has no
  \<open>colors\<close> the type assertion panics, and the run over this file and a good one can be
  terminated by the panic.
\<close>

theorem shape_deviation_panics:
  "extract_colors [(''data'', Map [(''scale'', Other ''int8'')])]
     = Inl (InterfaceConversion T_nil T_bytes) \<and>
   goroutine createAllColors no_colors_entry = Panicked (InterfaceConversion T_nil T_bytes) \<and>
   Terminated [Panicked (InterfaceConversion T_nil T_bytes)]
     \<in> main_run [no_colors_entry, good_entry]"
proof -
  from good_entry_saved obtain img where "goroutine createAllColors good_entry = Saved ''map_1.png'' img" ..
  then show ?thesis
    by (simp add: main_run_def dispatched_examples no_colors_entry_panics ends_process_def)
      (simp add: extract_colors_def map_index_def)
qed

text \<open>
  Claim C5, amended. Navigating root, key \<open>data\<close> as a nested map, key \<open>colors\<close> as a
  byte array returns the bytes exactly when the tree has that shape; any deviation (a
  missing key, a node of another kind) makes the type assertion panic with Go's
  interface-conversion error, and the file's goroutine ends in that panic. The panic is
  not an error contained to the file: nothing recovers it, and it can terminate the
  whole run.
\<close>

theorem extract_colors_shape:
  "((extract_colors mapdata = Inr colors) =
      (\<exists>data. map_of mapdata ''data'' = Some (Map data) \<and>
              map_of data ''colors'' = Some (Bytes colors))) \<and>
   ((\<exists>bs. extract_colors mapdata = Inr bs) \<or>
    (\<exists>t u. extract_colors mapdata = Inl (InterfaceConversion t u))) \<and>
   (e \<in> set (dispatched entries) \<and> openFile e = Return mapdata \<and>
    extract_colors mapdata = Inl p \<longrightarrow>
      goroutine allColors e = Panicked p \<and>
      (\<exists>ends. Terminated ends \<in> main_run entries \<and> Panicked p \<in> set ends))"
proof (intro conjI impI)
  show "(extract_colors mapdata = Inr colors) =
      (\<exists>data. map_of mapdata ''data'' = Some (Map data) \<and>
              map_of data ''colors'' = Some (Bytes colors))"
  proof (cases "map_of mapdata ''data''")
    case None
    then show ?thesis by (simp add: extract_colors_def map_index_def)
  next
    case (Some v)
    show ?thesis
    proof (cases v)
      case (Map data)
      show ?thesis
      proof (cases "map_of data ''colors''")
        case None
        with Some Map show ?thesis by (simp add: extract_colors_def map_index_def)
      next
        case (Some w)
        with \<open>map_of mapdata ''data'' = Some v\<close> Map show ?thesis
          by (cases w) (simp_all add: extract_colors_def map_index_def)
      qed
    qed (use Some in \<open>simp_all add: extract_colors_def map_index_def\<close>)
  qed
next
  have a: "(\<exists>m. assert_map v = Inr m) \<or> (\<exists>t u. assert_map v = Inl (InterfaceConversion t u))" for v
    by (cases v) simp_all
  have b: "(\<exists>m. assert_bytes v = Inr m) \<or> (\<exists>t u. assert_bytes v = Inl (InterfaceConversion t u))" for v
    by (cases v) simp_all
  show "(\<exists>bs. extract_colors mapdata = Inr bs) \<or>
    (\<exists>t u. extract_colors mapdata = Inl (InterfaceConversion t u))"
  proof (cases "assert_map (map_index mapdata ''data'')")
    case (Inl q)
    with a [of "map_index mapdata ''data''"] show ?thesis
      by (auto simp: extract_colors_def)
  next
    case (Inr data)
    with b [of "map_index data ''colors''"] show ?thesis
      by (auto simp: extract_colors_def)
  qed
next
  assume h: "e \<in> set (dispatched entries) \<and> openFile e = Return mapdata \<and>
    extract_colors mapdata = Inl p"
  then show g: "goroutine allColors e = Panicked p" by (simp add: goroutine_def)
  from h have "goroutine createAllColors e = Panicked p" by (simp add: goroutine_def)
  with main_run_panic [of e entries] h
  show "\<exists>ends. Terminated ends \<in> main_run entries \<and> Panicked p \<in> set ends" by auto
qed

text \<open>The good tree, and the run over the tree without \<open>colors\<close> and a good file.\<close>

theorem extract_colors_shape_witness:
  "extract_colors [(''data'', Map [(''colors'', Bytes [4, 5, 6, 7])])] = Inr [4, 5, 6, 7] \<and>
   (\<exists>ends. Terminated ends \<in> main_run [no_colors_entry, good_entry] \<and>
      Panicked (InterfaceConversion T_nil T_bytes) \<in> set ends)"
proof -
  have x: "extract_colors [(''data'', Map [(''scale'', Other ''int8'')])]
     = Inl (InterfaceConversion T_nil T_bytes)"
    by (simp add: extract_colors_def map_index_def)
  have o: "openFile no_colors_entry = Return [(''data'', Map [(''scale'', Other ''int8'')])]"
    by (simp add: no_colors_entry_def openFile_decoded)
  have d: "no_colors_entry \<in> set (dispatched [no_colors_entry, good_entry])"
    by (simp add: dispatched_examples)
  from extract_colors_shape [of "[(''data'', Map [(''colors'', Bytes [4, 5, 6, 7])])]" "[4, 5, 6, 7]"]
  have "extract_colors [(''data'', Map [(''colors'', Bytes [4, 5, 6, 7])])] = Inr [4, 5, 6, 7]"
    by simp
  moreover from extract_colors_shape [of "[(''data'', Map [(''scale'', Other ''int8'')])]" _
      no_colors_entry "[no_colors_entry, good_entry]" "InterfaceConversion T_nil T_bytes"] x o d
  have "\<exists>ends. Terminated ends \<in> main_run [no_colors_entry, good_entry] \<and>
      Panicked (InterfaceConversion T_nil T_bytes) \<in> set ends" by blast
  ultimately show ?thesis by blast
qed

text \<open>
  Claim C6 says that a file that is not a valid gzip stream gives an error that does not
  block the other files. It fails: for a truncated stream \<open>openFile\<close> ends in
  \<^verbatim>\<open>log.Fatal\<close>, and every run over this file and a good one is terminated by it.
\<close>

theorem truncated_stream_ends_the_run:
  "gunzipWrite truncated_entry = Inr (Some ''unexpected EOF'') \<and>
   openFile truncated_entry = LogFatal ''unexpected EOF'' \<and>
   main_run [truncated_entry, good_entry] = {Terminated [Fatal ''unexpected EOF'']}"
proof -
  from good_entry_saved obtain img where "goroutine createAllColors good_entry = Saved ''map_1.png'' img" ..
  then show ?thesis
    by (simp add: main_run_def dispatched_examples truncated_entry_fatal ends_process_def)
      (simp add: truncated_entry_def openFile_def gunzipWrite_def decoded_entry_def)
qed

text \<open>
  Claim C6, amended. For every dispatched file whose gzip stream has a good header and
  fails while it is read (a truncated stream), \<open>gunzipWrite\<close> returns the error of
  \<^verbatim>\<open>io.ReadAll\<close>, \<open>openFile\<close> passes it to \<^verbatim>\<open>log.Fatal\<close>, and that terminates the whole run,
  not only this file's processing.
\<close>

theorem gunzip_read_error_is_fatal:
  assumes "ReadFile_err e = None" and "NewReader_err e = None" and "ReadAll_err e = Some err"
    and "e \<in> set (dispatched entries)"
  shows "gunzipWrite e = Inr (Some err) \<and> openFile e = LogFatal err \<and>
    goroutine allColors e = Fatal err \<and>
    (\<exists>ends. main_run entries = {Terminated ends} \<and> Fatal err \<in> set ends)"
proof -
  have g: "gunzipWrite e = Inr (Some err)" using assms by (simp add: gunzipWrite_def)
  then have o: "openFile e = LogFatal err" using assms by (simp add: openFile_def)
  then have r: "goroutine allColors e = Fatal err" for allColors by (simp add: goroutine_def)
  from main_run_fatal [OF assms(4)] r [of createAllColors]
  have "\<exists>ends. main_run entries = {Terminated ends} \<and> Fatal err \<in> set ends" by auto
  with g o r show ?thesis by simp
qed

text \<open>The truncated file in a directory with a good one.\<close>

theorem gunzip_read_error_is_fatal_witness:
  "openFile truncated_entry = LogFatal ''unexpected EOF'' \<and>
   (\<exists>ends. main_run [truncated_entry, good_entry] = {Terminated ends} \<and>
      Fatal ''unexpected EOF'' \<in> set ends)"
proof -
  have "ReadFile_err truncated_entry = None" "NewReader_err truncated_entry = None"
    "ReadAll_err truncated_entry = Some ''unexpected EOF''"
    "truncated_entry \<in> set (dispatched [truncated_entry, good_entry])"
    by (simp_all add: dispatched_examples) (simp_all add: truncated_entry_def decoded_entry_def)
  from gunzip_read_error_is_fatal [OF this] show ?thesis by simp
qed

text \<open>
  Claim C7 says that the summary line counts the files dispatched through the pipeline.
  The code prints \<open>len(entries)\<close>: for a directory holding one map file and one file of
  another name, one file is dispatched and the summary says 2.
\<close>

theorem summary_counts_every_entry:
  "length (dispatched [good_entry, notes_entry]) = 1 \<and>
   (\<exists>img. main_run [good_entry, notes_entry] = {Finished [Saved ''map_1.png'' img] 2})"
proof -
  from good_entry_saved obtain img where "goroutine createAllColors good_entry = Saved ''map_1.png'' img" ..
  then show ?thesis by (simp add: main_run_def dispatched_examples)
qed

end
